theory Spec2Isabelle
  imports Main "HOL-Library.Sublist"
begin

section \<open>The sketch pages: route enumeration and per-document props\<close>

text \<open>
  This theory embeds the two data functions of \<^verbatim>\<open>src/pages/sketches/[slug].js\<close>,
  \<^verbatim>\<open>getStaticPaths\<close> and \<^verbatim>\<open>getStaticProps\<close>, together with the parts of the
  JavaScript runtime they call: \<^verbatim>\<open>fs.readdirSync\<close>, \<^verbatim>\<open>fs.readFileSync\<close>,
  \<^verbatim>\<open>path.join\<close> and \<^verbatim>\<open>String.prototype.replace\<close>.

  The three packages the page imports (\<^verbatim>\<open>gray-matter\<close>, \<^verbatim>\<open>next-mdx-remote/serialize\<close>
  and \<^verbatim>\<open>reading-time\<close>) are not part of the repository. They enter
  \<^verbatim>\<open>getStaticProps\<close> as parameters. A package may keep state from one call to the
  next, as a cache of the texts it has seen, so each parameter takes the state of the
  packages and returns it with its result.
\<close>

subsection \<open>The file system\<close>

text \<open>
  A path names a regular file with its UTF-8 text, a directory with the names of its
  entries, or something the process may not read. A path that names nothing is absent
  from the map.
\<close>

datatype node = File string | Dir "string list" | NoAccess

type_synonym filesystem = "string \<rightharpoonup> node"

text \<open>The exceptions of the \<^verbatim>\<open>fs\<close> module, each carrying the path it failed on.\<close>

datatype fs_error = ENOENT string | EACCES string | ENOTDIR string | EISDIR string

definition readdirSync :: "filesystem \<Rightarrow> string \<Rightarrow> fs_error + string list" where
  "readdirSync fs p =
     (case fs p of
        None \<Rightarrow> Inl (ENOENT p)
      | Some NoAccess \<Rightarrow> Inl (EACCES p)
      | Some (File t) \<Rightarrow> Inl (ENOTDIR p)
      | Some (Dir names) \<Rightarrow> Inr names)"


subsection \<open>Paths\<close>

text \<open>
  \<^verbatim>\<open>path.join(...args)\<close> on POSIX: the non-empty arguments are put together with the
  separator between them and the result is normalised. Normalising splits the path at
  the separators, drops empty and \<^verbatim>\<open>.\<close> segments, lets a \<^verbatim>\<open>..\<close> segment remove the
  segment before it (or keeps it, at the start of a relative path), and puts the
  remaining segments together again, keeping a leading and a trailing separator.
\<close>

fun split_sep :: "string \<Rightarrow> string \<Rightarrow> string list" where
  "split_sep seg [] = [seg]"
| "split_sep seg (c # cs) =
     (if c = CHR ''/'' then seg # split_sep [] cs else split_sep (seg @ [c]) cs)"

fun normalizeString :: "bool \<Rightarrow> string list \<Rightarrow> string list \<Rightarrow> string list" where
  "normalizeString allowAboveRoot res [] = res"
| "normalizeString allowAboveRoot res (seg # segs) =
     (if seg = [] \<or> seg = ''.'' then normalizeString allowAboveRoot res segs
      else if seg = ''..'' then
        (if res \<noteq> [] \<and> last res \<noteq> ''..'' then normalizeString allowAboveRoot (butlast res) segs
         else if allowAboveRoot then normalizeString allowAboveRoot (res @ [''..'']) segs
         else normalizeString allowAboveRoot res segs)
      else normalizeString allowAboveRoot (res @ [seg]) segs)"

fun join_sep :: "string list \<Rightarrow> string" where
  "join_sep [] = []"
| "join_sep [seg] = seg"
| "join_sep (seg # segs) = seg @ ''/'' @ join_sep segs"

definition normalize :: "string \<Rightarrow> string" where
  "normalize path =
     (if path = [] then ''.''
      else
        let isAbsolute = (hd path = CHR ''/'');
            trailingSeparator = (last path = CHR ''/'');
            res = join_sep (normalizeString (\<not> isAbsolute) [] (split_sep [] path))
        in if res = [] then (if isAbsolute then ''/'' else if trailingSeparator then ''./'' else ''.'')
           else (if isAbsolute then ''/'' else []) @ res @ (if trailingSeparator then ''/'' else []))"

definition path_join :: "string list \<Rightarrow> string" where
  "path_join args =
     (case filter (\<lambda>arg. arg \<noteq> []) args of
        [] \<Rightarrow> ''.''
      | joined \<Rightarrow> normalize (join_sep joined))"

subsection \<open>String replacement\<close>

text \<open>
  \<^verbatim>\<open>s.replace(pat, rep)\<close> with a string pattern replaces the first occurrence of
  \<^verbatim>\<open>pat\<close> in \<^verbatim>\<open>s\<close>, wherever it is, and leaves \<^verbatim>\<open>s\<close> alone when there is none.
\<close>

fun replace :: "string \<Rightarrow> string \<Rightarrow> string \<Rightarrow> string" where
  "replace [] pat rep = (if pat = [] then rep else [])"
| "replace (c # cs) pat rep =
     (if prefix pat (c # cs) then rep @ drop (length pat) (c # cs)
      else c # replace cs pat rep)"

subsection \<open>getStaticPaths\<close>

text \<open>
  \<^verbatim>\<open>
  export async function getStaticPaths() {
    const files = fs.readdirSync(path.join("data/sketches"));
    const paths = files.map((file) => {
      return { params: { slug: file.replace(".mdx", "") } };
    });
    return { paths, fallback: false };
  }
  \<close>
  A rejected promise is the left summand.
\<close>

record params =
  slug :: string

record static_path =
  params :: params

record static_paths =
  paths :: "static_path list"
  fallback :: bool

definition getStaticPaths :: "filesystem \<Rightarrow> fs_error + static_paths" where
  "getStaticPaths fs =
     (case readdirSync fs (path_join [''data/sketches'']) of
        Inl e \<Rightarrow> Inl e
      | Inr files \<Rightarrow>
          Inr \<lparr>paths = map (\<lambda>file. \<lparr>params = \<lparr>slug = replace file ''.mdx'' ''''\<rparr>\<rparr>) files,
               fallback = False\<rparr>)"

subsection \<open>getStaticProps\<close>






subsection \<open>Concrete inputs\<close>

text \<open>
  File systems and stand-ins for the three packages, at which the statements below are
  evaluated. The stand-ins are arbitrary instances of the parameters of
  \<^verbatim>\<open>getStaticProps\<close>: a splitter that finds no front matter in any text, a compiler
  that returns the body as it is, and an estimator that counts characters; none of them
  touches the state.
\<close>

definition fs_ab :: filesystem where
  "fs_ab = [''data/sketches'' \<mapsto> Dir [''a.mdx'', ''b.mdx''],
            ''data/sketches/a.mdx'' \<mapsto> File ''# A'',
            ''data/sketches/b.mdx'' \<mapsto> File ''# B'']"


definition fs_draft :: filesystem where
  "fs_draft = [''data/sketches'' \<mapsto> Dir [''a.mdx'', ''a''],
               ''data/sketches/a.mdx'' \<mapsto> File ''# A'',
               ''data/sketches/a'' \<mapsto> File ''notes'']"

definition fs_locked :: filesystem where
  "fs_locked = [''data/sketches'' \<mapsto> NoAccess]"





section \<open>Paths of the content directory\<close>


lemma path_join_dir: "path_join [''data/sketches''] = ''data/sketches''"
  by (simp add: path_join_def normalize_def)


section \<open>Stripping the extension\<close>

lemma mdx_not_across:
  assumes "prefix ''.mdx'' (c # cs @ ''.mdx'')"
  shows "prefix ''.mdx'' (c # cs)"
proof (cases cs)
  case Nil
  with assms show ?thesis by simp
next
  case (Cons c1 cs1)
  note cs = Cons
  show ?thesis
  proof (cases cs1)
    case Nil
    with assms cs show ?thesis by simp
  next
    case (Cons c2 cs2)
    note cs1 = Cons
    show ?thesis
    proof (cases cs2)
      case Nil
      with assms cs cs1 show ?thesis by simp
    next
      case (Cons c3 cs3)
      with assms cs cs1 show ?thesis by simp
    qed
  qed
qed

text \<open>
  When the only occurrence of \<^verbatim>\<open>.mdx\<close> in a name is the extension at its end,
  \<^verbatim>\<open>replace\<close> removes that extension.
\<close>

lemma replace_strip_mdx:
  "\<not> sublist ''.mdx'' stem \<Longrightarrow> replace (stem @ ''.mdx'') ''.mdx'' [] = stem"
proof (induction stem)
  case Nil
  show ?case by simp
next
  case (Cons c cs)
  from Cons.prems have no_prefix: "\<not> prefix ''.mdx'' (c # cs)" and rest: "\<not> sublist ''.mdx'' cs"
    by (simp_all add: sublist_Cons_right)
  from no_prefix mdx_not_across have "\<not> prefix ''.mdx'' (c # cs @ ''.mdx'')"
    by blast
  then have "replace (c # cs @ ''.mdx'') ''.mdx'' [] = c # replace (cs @ ''.mdx'') ''.mdx'' []"
    by (simp only: replace.simps if_False)
  with Cons.IH [OF rest] show ?case
    by (simp only: append_Cons)
qed

text \<open>
  An occurrence before the extension is the one that \<^verbatim>\<open>replace\<close> removes, and a name
  without the extension is left as it is.
\<close>

lemma replace_inner_occurrence: "replace ''x.mdxy.mdx'' ''.mdx'' [] = ''xy.mdx''"
  by simp

lemma replace_no_extension: "replace ''README.md'' ''.mdx'' [] = ''README.md''"
  by simp

section \<open>Route enumeration\<close>

lemma getStaticPaths_Dir:
  "fs ''data/sketches'' = Some (Dir files) \<Longrightarrow>
   getStaticPaths fs =
     Inr \<lparr>paths = map (\<lambda>file. \<lparr>params = \<lparr>slug = replace file ''.mdx'' []\<rparr>\<rparr>) files,
          fallback = False\<rparr>"
  by (simp add: getStaticPaths_def readdirSync_def path_join_dir)




text \<open>
  Claim C9. When the content directory is missing or may not be read,
  \<^verbatim>\<open>getStaticPaths\<close> fails with the exception of the directory listing, which names the
  directory, and returns no route descriptors at all.
\<close>

theorem getStaticPaths_store_error:
  assumes "fs ''data/sketches'' = None \<or> fs ''data/sketches'' = Some NoAccess"
  shows "(\<exists>e. getStaticPaths fs = Inl e \<and>
              (e = ENOENT ''data/sketches'' \<or> e = EACCES ''data/sketches'')) \<and>
         (\<forall>r. getStaticPaths fs \<noteq> Inr r)"
  using assms by (auto simp: getStaticPaths_def readdirSync_def path_join_dir)

theorem getStaticPaths_store_error_witness:
  "Map.empty ''data/sketches'' = (None :: node option) \<and>
   getStaticPaths Map.empty = Inl (ENOENT ''data/sketches'') \<and>
   fs_locked ''data/sketches'' = Some NoAccess \<and>
   getStaticPaths fs_locked = Inl (EACCES ''data/sketches'')"
proof -
  have missing: "Map.empty ''data/sketches'' = None \<or> Map.empty ''data/sketches'' = Some NoAccess"
    by simp
  have locked: "fs_locked ''data/sketches'' = None \<or> fs_locked ''data/sketches'' = Some NoAccess"
    by (simp add: fs_locked_def)
  from getStaticPaths_store_error [of Map.empty, OF missing]
    getStaticPaths_store_error [of fs_locked, OF locked]
  show ?thesis
    by (simp add: getStaticPaths_def readdirSync_def path_join_dir fs_locked_def)
qed

text \<open>
  Claim C3, as amended. For every content directory that can be listed,
  \<^verbatim>\<open>getStaticPaths\<close> produces exactly one route descriptor per directory entry, in the
  order of the listing, with the slug that \<^verbatim>\<open>replace\<close> derives from the entry's name.
  When the entries are distinct names that end in \<^verbatim>\<open>.mdx\<close> and hold \<^verbatim>\<open>.mdx\<close> nowhere
  before that extension, every slug is its file's name without the extension (putting the
  extension back gives the listing), and no two descriptors share a slug. For the
  directory with \<^verbatim>\<open>a.mdx\<close> and \<^verbatim>\<open>b.mdx\<close> the slugs are \<^verbatim>\<open>a\<close> and \<^verbatim>\<open>b\<close>.
\<close>

theorem getStaticPaths_one_per_file:
  assumes dir: "fs ''data/sketches'' = Some (Dir files)"
  shows "\<exists>r. getStaticPaths fs = Inr r \<and>
           length (paths r) = length files \<and>
           (\<forall>i<length files.
              paths r ! i = \<lparr>params = \<lparr>slug = replace (files ! i) ''.mdx'' []\<rparr>\<rparr>) \<and>
           (distinct files \<and>
            (\<forall>file\<in>set files. \<exists>stem. file = stem @ ''.mdx'' \<and> \<not> sublist ''.mdx'' stem) \<longrightarrow>
              map (\<lambda>d. slug (params d) @ ''.mdx'') (paths r) = files \<and>
              distinct (map (\<lambda>d. slug (params d)) (paths r)))"
proof -
  let ?r = "\<lparr>paths = map (\<lambda>file. \<lparr>params = \<lparr>slug = replace file ''.mdx'' []\<rparr>\<rparr>) files,
             fallback = False\<rparr>"
  have count: "length (paths ?r) = length files"
    by simp
  have each: "\<forall>i<length files.
      paths ?r ! i = \<lparr>params = \<lparr>slug = replace (files ! i) ''.mdx'' []\<rparr>\<rparr>"
    by simp
  have stripped: "map (\<lambda>d. slug (params d) @ ''.mdx'') (paths ?r) = files \<and>
      distinct (map (\<lambda>d. slug (params d)) (paths ?r))"
    if names: "distinct files"
      and plain: "\<forall>file\<in>set files. \<exists>stem. file = stem @ ''.mdx'' \<and> \<not> sublist ''.mdx'' stem"
  proof -
    have strip: "replace f ''.mdx'' [] @ ''.mdx'' = f" if "f \<in> set files" for f
    proof -
      from plain that obtain stem where "f = stem @ ''.mdx''" and "\<not> sublist ''.mdx'' stem"
        by blast
      then show ?thesis
        by (simp add: replace_strip_mdx)
    qed
    have "map (\<lambda>d. slug (params d) @ ''.mdx'') (paths ?r) =
          map (\<lambda>file. replace file ''.mdx'' [] @ ''.mdx'') files"
      by (simp add: comp_def)
    also have "\<dots> = map (\<lambda>file. file) files"
      by (rule map_cong) (simp_all add: strip)
    finally have rebuilt: "map (\<lambda>d. slug (params d) @ ''.mdx'') (paths ?r) = files"
      by simp
    have "map (\<lambda>s. s @ ''.mdx'') (map (\<lambda>d. slug (params d)) (paths ?r)) =
          map (\<lambda>d. slug (params d) @ ''.mdx'') (paths ?r)"
      by (simp add: comp_def)
    with rebuilt names
    have "distinct (map (\<lambda>s. s @ ''.mdx'') (map (\<lambda>d. slug (params d)) (paths ?r)))"
      by (simp only:)
    then have "distinct (map (\<lambda>d. slug (params d)) (paths ?r))"
      by (rule distinct_map [THEN iffD1, THEN conjunct1])
    with rebuilt show ?thesis
      by (intro conjI)
  qed
  show ?thesis
  proof (intro exI conjI impI)
    show "getStaticPaths fs = Inr ?r"
      by (rule getStaticPaths_Dir [of fs files, OF dir])
    show "length (paths ?r) = length files"
      by (rule count)
    show "\<forall>i<length files.
        paths ?r ! i = \<lparr>params = \<lparr>slug = replace (files ! i) ''.mdx'' []\<rparr>\<rparr>"
      by (rule each)
    assume cond: "distinct files \<and>
        (\<forall>file\<in>set files. \<exists>stem. file = stem @ ''.mdx'' \<and> \<not> sublist ''.mdx'' stem)"
    note both = stripped [OF cond [THEN conjunct1] cond [THEN conjunct2]]
    from both show "map (\<lambda>d. slug (params d) @ ''.mdx'') (paths ?r) = files"
      by (rule conjunct1)
    from both show "distinct (map (\<lambda>d. slug (params d)) (paths ?r))"
      by (rule conjunct2)
  qed
qed

theorem getStaticPaths_one_per_file_witness:
  "fs_ab ''data/sketches'' = Some (Dir [''a.mdx'', ''b.mdx'']) \<and>
   distinct [''a.mdx'', ''b.mdx''] \<and>
   ''a.mdx'' = ''a'' @ ''.mdx'' \<and> \<not> sublist ''.mdx'' ''a'' \<and>
   ''b.mdx'' = ''b'' @ ''.mdx'' \<and> \<not> sublist ''.mdx'' ''b'' \<and>
   getStaticPaths fs_ab =
     Inr \<lparr>paths = [\<lparr>params = \<lparr>slug = ''a''\<rparr>\<rparr>, \<lparr>params = \<lparr>slug = ''b''\<rparr>\<rparr>], fallback = False\<rparr> \<and>
   map (\<lambda>d. slug (params d) @ ''.mdx'') [\<lparr>params = \<lparr>slug = ''a''\<rparr>\<rparr>, \<lparr>params = \<lparr>slug = ''b''\<rparr>\<rparr>] =
     [''a.mdx'', ''b.mdx''] \<and>
   distinct (map (\<lambda>d. slug (params d)) [\<lparr>params = \<lparr>slug = ''a''\<rparr>\<rparr>, \<lparr>params = \<lparr>slug = ''b''\<rparr>\<rparr>])"
proof -
  have dir: "fs_ab ''data/sketches'' = Some (Dir [''a.mdx'', ''b.mdx''])"
    by (simp add: fs_ab_def)
  have names: "distinct [''a.mdx'', ''b.mdx'']"
    by simp
  have stems: "''a.mdx'' = ''a'' @ ''.mdx''" "\<not> sublist ''.mdx'' ''a''"
    "''b.mdx'' = ''b'' @ ''.mdx''" "\<not> sublist ''.mdx'' ''b''"
    by (simp_all add: sublist_Cons_right)
  have plain: "\<forall>file\<in>set [''a.mdx'', ''b.mdx''].
      \<exists>stem. file = stem @ ''.mdx'' \<and> \<not> sublist ''.mdx'' stem"
    by (simp add: sublist_Cons_right)
  have run: "getStaticPaths fs_ab =
     Inr \<lparr>paths = [\<lparr>params = \<lparr>slug = ''a''\<rparr>\<rparr>, \<lparr>params = \<lparr>slug = ''b''\<rparr>\<rparr>], fallback = False\<rparr>"
    by (simp add: getStaticPaths_def readdirSync_def path_join_dir fs_ab_def)
  from getStaticPaths_one_per_file [of fs_ab "[''a.mdx'', ''b.mdx'']", OF dir]
  obtain r where all: "getStaticPaths fs_ab = Inr r \<and>
      length (paths r) = length [''a.mdx'', ''b.mdx''] \<and>
      (\<forall>i<length [''a.mdx'', ''b.mdx''].
         paths r ! i = \<lparr>params = \<lparr>slug = replace ([''a.mdx'', ''b.mdx''] ! i) ''.mdx'' []\<rparr>\<rparr>) \<and>
      (distinct [''a.mdx'', ''b.mdx''] \<and>
       (\<forall>file\<in>set [''a.mdx'', ''b.mdx''].
          \<exists>stem. file = stem @ ''.mdx'' \<and> \<not> sublist ''.mdx'' stem) \<longrightarrow>
         map (\<lambda>d. slug (params d) @ ''.mdx'') (paths r) = [''a.mdx'', ''b.mdx''] \<and>
         distinct (map (\<lambda>d. slug (params d)) (paths r)))" ..
  note result = all [THEN conjunct1]
    and cond = all [THEN conjunct2, THEN conjunct2, THEN conjunct2]
  from run [unfolded result]
  have "r = \<lparr>paths = [\<lparr>params = \<lparr>slug = ''a''\<rparr>\<rparr>, \<lparr>params = \<lparr>slug = ''b''\<rparr>\<rparr>], fallback = False\<rparr>"
    by (simp only: sum.inject)
  then have r: "paths r = [\<lparr>params = \<lparr>slug = ''a''\<rparr>\<rparr>, \<lparr>params = \<lparr>slug = ''b''\<rparr>\<rparr>]"
    by simp
  note both = cond [THEN mp, OF conjI, OF names plain]
  have rebuilt: "map (\<lambda>d. slug (params d) @ ''.mdx'')
        [\<lparr>params = \<lparr>slug = ''a''\<rparr>\<rparr>, \<lparr>params = \<lparr>slug = ''b''\<rparr>\<rparr>] = [''a.mdx'', ''b.mdx'']"
    using both [THEN conjunct1] unfolding r .
  have slugs: "distinct (map (\<lambda>d. slug (params d))
        [\<lparr>params = \<lparr>slug = ''a''\<rparr>\<rparr>, \<lparr>params = \<lparr>slug = ''b''\<rparr>\<rparr>])"
    using both [THEN conjunct2] unfolding r .
  from dir names stems run rebuilt slugs show ?thesis
    by (intro conjI)
qed

text \<open>
  The claim as the specification states it fails: the directory with the two distinct
  entries \<^verbatim>\<open>a.mdx\<close> and \<^verbatim>\<open>a\<close> gets two descriptors with the one slug \<^verbatim>\<open>a\<close>.
\<close>

theorem getStaticPaths_duplicate_slug_counterexample:
  "fs_draft ''data/sketches'' = Some (Dir [''a.mdx'', ''a'']) \<and>
   distinct [''a.mdx'', ''a''] \<and>
   getStaticPaths fs_draft =
     Inr \<lparr>paths = [\<lparr>params = \<lparr>slug = ''a''\<rparr>\<rparr>, \<lparr>params = \<lparr>slug = ''a''\<rparr>\<rparr>], fallback = False\<rparr> \<and>
   \<not> distinct [''a'', ''a'']"
  by (simp add: getStaticPaths_def readdirSync_def path_join_dir fs_draft_def)

section \<open>Props of one document\<close>





end
